theory Spec2Isabelle
  imports Complex_Main
begin

section \<open>Data model of the rate feed (data.py)\<close>

text \<open>
  Timestamps are integer ticks on a naive UTC clock. A cell of the
  \<^verbatim>\<open>liquidityIndex\<close> column is a float64; only the difference between a number
  and NaN matters to the code modelled here, so a cell is a \<^typ>\<open>real option\<close>
  with \<^term>\<open>None\<close> for NaN.
\<close>

type_synonym timestamp = int
type_synonym float64 = "real option"
type_synonym row = "timestamp \<times> float64"
type_synonym frame = "row list"

text \<open>The tuple \<^verbatim>\<open>(token, datetime, liquidityIndex)\<close> built by \<^verbatim>\<open>_get_new_rate\<close>.\<close>

type_synonym rate = "string \<times> timestamp \<times> float64"

datatype py_error =
  KeyError | StopIteration | AttributeError | TypeError | ValueError | FileNotFoundError

text \<open>
  \<^verbatim>\<open>MarketEvent()\<close> is built without arguments; it is the only event the rate feed
  puts on the queue.
\<close>

datatype event = MarketEvent

text \<open>
  An entry of \<^verbatim>\<open>self.token_data\<close> is a pandas DataFrame while the constructor
  runs and is replaced, in its last loop, by the generator \<^verbatim>\<open>iterrows()\<close> of the
  reindexed frame: the rows not yet consumed.
\<close>

datatype token_series = DataFrame frame | RowIter "row list"

record feed =
  events :: "event list"
  token_list :: "string list"
  token_data :: "string \<rightharpoonup> token_series"
  latest_token_data :: "string \<rightharpoonup> rate list"
  continue_backtest :: bool
  start_date_time :: "timestamp option"
  end_date_time :: "timestamp option"
  backtest_frequency :: int

section \<open>Streaming: \<^verbatim>\<open>update_rates\<close> and \<^verbatim>\<open>get_latest_rates\<close>\<close>

text \<open>
  \<^verbatim>\<open>next(self._get_new_rate(t))\<close>: a fresh generator over the shared iterator
  \<^verbatim>\<open>self.token_data[t]\<close> is asked for one element. The lookup of a missing key
  raises KeyError inside the generator; an exhausted iterator ends the generator, so
  \<^verbatim>\<open>next\<close> raises StopIteration; otherwise one row \<^verbatim>\<open>b\<close> is consumed and the
  tuple \<^verbatim>\<open>(token, b[0], b[1]['liquidityIndex'])\<close> is yielded. Iterating a DataFrame
  yields its column labels, and indexing the character \<^verbatim>\<open>b[1]\<close> of a label by a string
  is a TypeError.
\<close>

definition next_get_new_rate :: "feed \<Rightarrow> string \<Rightarrow> py_error + (rate option \<times> feed)" where
  "next_get_new_rate self token =
     (case token_data self token of
        None \<Rightarrow> Inl KeyError
      | Some (DataFrame df) \<Rightarrow> Inl TypeError
      | Some (RowIter []) \<Rightarrow> Inl StopIteration
      | Some (RowIter (b # bs)) \<Rightarrow>
          Inr (Some (token, fst b, snd b),
               self\<lparr>token_data := (token_data self)(token \<mapsto> RowIter bs)\<rparr>))"

text \<open>
  The body of \<^verbatim>\<open>for t in self.token_list\<close>: StopIteration is the only exception
  caught, and it clears \<^verbatim>\<open>continue_backtest\<close>; a rate that is not None is appended
  to \<^verbatim>\<open>self.latest_token_data[t]\<close>, whose lookup raises KeyError for a missing key.
\<close>

fun update_rates_loop :: "string list \<Rightarrow> feed \<Rightarrow> py_error + feed" where
  "update_rates_loop [] self = Inr self"
| "update_rates_loop (t # ts) self =
     (case next_get_new_rate self t of
        Inl StopIteration \<Rightarrow> update_rates_loop ts (self\<lparr>continue_backtest := False\<rparr>)
      | Inl e \<Rightarrow> Inl e
      | Inr (None, self') \<Rightarrow> update_rates_loop ts self'
      | Inr (Some rate, self') \<Rightarrow>
          (case latest_token_data self' t of
             None \<Rightarrow> Inl KeyError
           | Some rates_list \<Rightarrow>
               update_rates_loop ts
                 (self'\<lparr>latest_token_data := (latest_token_data self')(t \<mapsto> rates_list @ [rate])\<rparr>)))"

text \<open>After the loop, \<^verbatim>\<open>self.events.put(MarketEvent())\<close> runs unconditionally.\<close>

definition update_rates :: "feed \<Rightarrow> py_error + feed" where
  "update_rates self =
     (case update_rates_loop (token_list self) self of
        Inl e \<Rightarrow> Inl e
      | Inr self' \<Rightarrow> Inr (self'\<lparr>events := events self' @ [MarketEvent]\<rparr>))"

text \<open>\<open>n\<close> successive calls of \<^verbatim>\<open>update_rates()\<close>; an exception ends the run.\<close>

fun update_rates_n :: "nat \<Rightarrow> feed \<Rightarrow> py_error + feed" where
  "update_rates_n 0 self = Inr self"
| "update_rates_n (Suc n) self =
     (case update_rates self of Inl e \<Rightarrow> Inl e | Inr self' \<Rightarrow> update_rates_n n self')"

text \<open>
  Python's slice \<^verbatim>\<open>xs[i:]\<close>: a negative start counts from the end, and the start is
  clamped to the range \<open>0 .. len(xs)\<close>.
\<close>

definition slice_from :: "'a list \<Rightarrow> int \<Rightarrow> 'a list" where
  "slice_from xs i =
     (let n = int (length xs);
          j = (if i < 0 then max (n + i) 0 else min i n)
      in drop (nat j) xs)"

definition dict_get :: "('k \<rightharpoonup> 'v) \<Rightarrow> 'k \<Rightarrow> py_error + 'v" where
  "dict_get d k = (case d k of None \<Rightarrow> Inl KeyError | Some v \<Rightarrow> Inr v)"

text \<open>
  \<^verbatim>\<open>get_latest_rates(token, N)\<close>. The result pairs the lines printed with the
  outcome of the call: \<^term>\<open>Inl e\<close> when the exception \<open>e\<close> leaves the function,
  \<^term>\<open>Inr None\<close> when it returns Python's None (the \<^verbatim>\<open>except KeyError\<close> branch
  only prints and falls off the end), \<^term>\<open>Inr (Some xs)\<close> when it returns a list.
\<close>

definition unavailable_message :: string where
  "unavailable_message = ''That token is not available in the historical data set.''"

definition get_latest_rates ::
  "feed \<Rightarrow> string \<Rightarrow> int \<Rightarrow> string list \<times> (py_error + rate list option)" where
  "get_latest_rates self token N =
     (case dict_get (latest_token_data self) token of
        Inl KeyError \<Rightarrow> ([unavailable_message], Inr None)
      | Inl e \<Rightarrow> ([], Inl e)
      | Inr rates_list \<Rightarrow> ([], Inr (Some (slice_from rates_list (- N)))))"

section \<open>Construction: \<^verbatim>\<open>_open_convert_csv_files\<close>\<close>

text \<open>
  The pandas operations are modelled on frames whose index is strictly increasing, which
  is what every stage of the pipeline hands to the next. A frequency is a number of
  ticks; pandas rejects one that is not positive.

  The model is exact on the order of the index labels, which is what the statements
  below rest on. It is not a model of every label or cell: see the remarks at
  \<open>bin_labels\<close> and \<open>resample_ffill\<close>.
\<close>

definition index_of :: "frame \<Rightarrow> timestamp list" where
  "index_of df = map fst df"

definition floor_to :: "int \<Rightarrow> timestamp \<Rightarrow> timestamp" where
  "floor_to k x = (x div k) * k"

text \<open>
  The labels of \<^verbatim>\<open>df.resample(freq)\<close> used for upsampling: the grid of step
  \<open>k\<close> from the floor of the smallest index value to the floor of the largest one.
  The floor is taken on the multiples of \<open>k\<close> counted from tick 0. pandas counts them
  from the midnight of the first row, which gives the same labels when \<open>k\<close> divides
  a day (the defaults, an hour and a day, do) and a shifted grid of the same step
  otherwise. Either grid is strictly increasing.
\<close>

definition bin_labels :: "int \<Rightarrow> frame \<Rightarrow> timestamp list" where
  "bin_labels k df =
     (if df = [] then []
      else let first = floor_to k (Min (set (index_of df)));
               last = floor_to k (Max (set (index_of df)))
           in map (\<lambda>i. first + k * int i) [0 ..< Suc (nat ((last - first) div k))])"

text \<open>
  Forward fill (\<^verbatim>\<open>method='pad'\<close>): a label takes the cell of the last source row at
  or before it, and NaN when there is none.
\<close>

definition pad_value :: "frame \<Rightarrow> timestamp \<Rightarrow> float64" where
  "pad_value df x =
     (case filter (\<lambda>r. fst r \<le> x) df of [] \<Rightarrow> None | r # rs \<Rightarrow> snd (last (r # rs)))"

definition reindex_pad :: "timestamp list \<Rightarrow> frame \<Rightarrow> frame" where
  "reindex_pad idx df = map (\<lambda>x. (x, pad_value df x)) idx"

text \<open>
  \<^verbatim>\<open>df.resample(freq).ffill()\<close>: the frame reindexed on the labels with forward
  fill. For a frequency that is not positive pandas raises; which exception it raises
  is not modelled, \<^term>\<open>ValueError\<close> stands for it. For a frame that is equally spaced
  at the frequency itself pandas only relabels the rows; on the frames the pipeline
  passes in, whose labels are on the grid already, that is what forward fill gives.
\<close>

definition resample_ffill :: "int \<Rightarrow> frame \<Rightarrow> py_error + frame" where
  "resample_ffill k df =
     (if k \<le> 0 then Inl ValueError else Inr (reindex_pad (bin_labels k df) df))"

definition dropna :: "frame \<Rightarrow> frame" where
  "dropna df = filter (\<lambda>r. snd r \<noteq> None) df"

text \<open>
  \<^verbatim>\<open>_adjust_liquidity_index_frequency\<close>:
  \<^verbatim>\<open>df.resample(self.backtest_frequency).ffill()\<close>, then \<^verbatim>\<open>dropna()\<close>.
\<close>

definition adjust_liquidity_index_frequency :: "feed \<Rightarrow> frame \<Rightarrow> py_error + frame" where
  "adjust_liquidity_index_frequency self df =
     (case resample_ffill (backtest_frequency self) df of
        Inl e \<Rightarrow> Inl e
      | Inr df' \<Rightarrow> Inr (dropna df'))"

text \<open>\<^verbatim>\<open>index.to_series().between(start, end)\<close> keeps both bounds.\<close>

definition between :: "timestamp \<Rightarrow> timestamp \<Rightarrow> frame \<Rightarrow> frame" where
  "between lo hi df = filter (\<lambda>r. lo \<le> fst r \<and> fst r \<le> hi) df"

text \<open>
  The filter runs only when both bounds are truthy, that is, when both were given.
\<close>

definition start_end_filter :: "feed \<Rightarrow> frame \<Rightarrow> frame" where
  "start_end_filter self df =
     (case (start_date_time self, end_date_time self) of
        (Some lo, Some hi) \<Rightarrow> between lo hi df
      | _ \<Rightarrow> df)"

text \<open>\<^verbatim>\<open>Index.union\<close> returns a new index, the sorted union; it changes neither operand.\<close>

definition index_union :: "timestamp list \<Rightarrow> timestamp list \<Rightarrow> timestamp list" where
  "index_union a b = sort (remdups (a @ b))"

text \<open>
  One round of the first loop of \<^verbatim>\<open>_open_convert_csv_files\<close>, with the running
  \<^verbatim>\<open>comb_index\<close>. The argument \<open>interpolated_csv\<close> stands for lines 157 to 175 of
  data.py, whose result depends on the files and on float arithmetic: it gives, for a
  token, the frame read from its CSV file after the optional flat-region removal and
  after \<^verbatim>\<open>_interpolate_liquidity_index\<close>, or the exception raised (a missing file).
  Timestamps are naive already, so \<^verbatim>\<open>tz_localize(None)\<close> changes nothing.
  In the \<^verbatim>\<open>else\<close> branch the statement \<^verbatim>\<open>comb_index.union(...)\<close> computes the
  union and drops it: \<^verbatim>\<open>comb_index\<close> is not assigned.
\<close>

definition open_convert_token ::
  "(string \<Rightarrow> py_error + frame) \<Rightarrow> string \<Rightarrow> feed \<times> timestamp list option
     \<Rightarrow> py_error + (feed \<times> timestamp list option)" where
  "open_convert_token interpolated_csv t st =
     (case st of (self, comb_index) \<Rightarrow>
        (case interpolated_csv t of
           Inl e \<Rightarrow> Inl e
         | Inr df0 \<Rightarrow>
             (case adjust_liquidity_index_frequency self df0 of
                Inl e \<Rightarrow> Inl e
              | Inr df1 \<Rightarrow>
                  (let df = start_end_filter self df1;
                       self1 = self\<lparr>token_data := (token_data self)(t \<mapsto> DataFrame df)\<rparr>;
                       comb_index' =
                         (case comb_index of
                            None \<Rightarrow> Some (index_of df)
                          | Some c \<Rightarrow> (let dropped = index_union c (index_of df) in Some c));
                       self2 = self1\<lparr>latest_token_data := (latest_token_data self1)(t \<mapsto> [])\<rparr>
                   in Inr (self2, comb_index')))))"

fun open_convert_loop ::
  "(string \<Rightarrow> py_error + frame) \<Rightarrow> string list \<Rightarrow> feed \<times> timestamp list option
     \<Rightarrow> py_error + (feed \<times> timestamp list option)" where
  "open_convert_loop interpolated_csv [] st = Inr st"
| "open_convert_loop interpolated_csv (t # ts) st =
     (case open_convert_token interpolated_csv t st of
        Inl e \<Rightarrow> Inl e
      | Inr st' \<Rightarrow> open_convert_loop interpolated_csv ts st')"

text \<open>
  \<^verbatim>\<open>df.reindex(index=comb_index, method='pad')\<close>; with \<^verbatim>\<open>index=None\<close> the frame
  keeps its index.
\<close>

definition reindex :: "frame \<Rightarrow> timestamp list option \<Rightarrow> frame" where
  "reindex df comb_index =
     (case comb_index of None \<Rightarrow> df | Some idx \<Rightarrow> reindex_pad idx df)"

text \<open>
  The second loop replaces each frame by the row iterator of the reindexed frame. A
  token met a second time finds the iterator stored by its first round, which has no
  attribute \<^verbatim>\<open>reindex\<close>.
\<close>

fun reindex_loop :: "timestamp list option \<Rightarrow> string list \<Rightarrow> feed \<Rightarrow> py_error + feed" where
  "reindex_loop comb_index [] self = Inr self"
| "reindex_loop comb_index (s # ss) self =
     (case token_data self s of
        None \<Rightarrow> Inl KeyError
      | Some (RowIter rows) \<Rightarrow> Inl AttributeError
      | Some (DataFrame df) \<Rightarrow>
          reindex_loop comb_index ss
            (self\<lparr>token_data := (token_data self)(s \<mapsto> RowIter (reindex df comb_index))\<rparr>))"

definition open_convert_csv_files :: "(string \<Rightarrow> py_error + frame) \<Rightarrow> feed \<Rightarrow> py_error + feed" where
  "open_convert_csv_files interpolated_csv self =
     (case open_convert_loop interpolated_csv (token_list self) (self, None) of
        Inl e \<Rightarrow> Inl e
      | Inr (self', comb_index) \<Rightarrow> reindex_loop comb_index (token_list self') self')"

text \<open>
  \<^verbatim>\<open>HistoricCSVDataHandler.__init__\<close>. The arguments \<^verbatim>\<open>csv_dir\<close>,
  \<^verbatim>\<open>interpolation_frequency\<close> and \<^verbatim>\<open>is_liquid_staking\<close> act only through
  \<open>interpolated_csv\<close>; \<open>events0\<close> is the content of the queue handed in.
\<close>

definition HistoricCSVDataHandler ::
  "(string \<Rightarrow> py_error + frame) \<Rightarrow> event list \<Rightarrow> string list \<Rightarrow> timestamp option
     \<Rightarrow> timestamp option \<Rightarrow> int \<Rightarrow> py_error + feed" where
  "HistoricCSVDataHandler interpolated_csv events0 tokens start_dt end_dt freq =
     open_convert_csv_files interpolated_csv
       \<lparr>events = events0, token_list = tokens, token_data = Map.empty,
        latest_token_data = Map.empty, continue_backtest = True,
        start_date_time = start_dt, end_date_time = end_dt, backtest_frequency = freq\<rparr>"

section \<open>Auxiliary notions for the statements\<close>

definition rate_timestamp :: "rate \<Rightarrow> timestamp" where
  "rate_timestamp r = fst (snd r)"

text \<open>
  Token \<open>t\<close> is in step with the index \<open>idx\<close>: the timestamps already revealed,
  followed by those of the rows still to come, are \<open>idx\<close>.
\<close>

definition in_step :: "timestamp list \<Rightarrow> feed \<Rightarrow> string \<Rightarrow> bool" where
  "in_step idx self t =
     (case (latest_token_data self t, token_data self t) of
        (Some h, Some (RowIter rows)) \<Rightarrow> map rate_timestamp h @ index_of rows = idx
      | _ \<Rightarrow> False)"

text \<open>
  A feed over two tokens whose cleaned series differ in length: three daily
  observations for the first token, four for the second.
\<close>

definition example_csv :: "string \<Rightarrow> py_error + frame" where
  "example_csv t =
     (if t = ''aave_usdc'' then Inr [(0, Some 100), (1, Some 101), (2, Some 103)]
      else if t = ''aave_dai'' then Inr [(0, Some 200), (1, Some 201), (2, Some 202), (3, Some 204)]
      else Inl FileNotFoundError)"

definition example_tokens :: "string list" where
  "example_tokens = [''aave_usdc'', ''aave_dai'']"

definition example_feed :: "py_error + feed" where
  "example_feed = HistoricCSVDataHandler example_csv [] example_tokens None None 1"

text \<open>The example feed after \<open>n\<close> calls of \<^verbatim>\<open>update_rates()\<close>.\<close>

definition example_feed_after :: "nat \<Rightarrow> py_error + feed" where
  "example_feed_after n =
     (case example_feed of Inl e \<Rightarrow> Inl e | Inr self \<Rightarrow> update_rates_n n self)"

section \<open>Querying the revealed history\<close>

lemma slice_from_neg:
  "1 \<le> N \<Longrightarrow> slice_from xs (- N) = drop (length xs - nat N) xs"
  by (auto simp: slice_from_def Let_def max_def nat_diff_distrib'
           intro: arg_cong[where f="\<lambda>n. drop n xs"])

text \<open>
  Claim C7. For a registered token, whose revealed history is \<open>rates_list\<close>, and any
  \<open>N \<ge> 1\<close>, \<^verbatim>\<open>get_latest_rates(token, N)\<close> prints nothing and returns the last
  \<open>N\<close> observations of the history, or the whole history when it holds at most \<open>N\<close>.
\<close>

theorem get_latest_rates_last_N:
  assumes "latest_token_data self token = Some rates_list" and "1 \<le> N"
  shows "get_latest_rates self token N =
           ([], Inr (Some (if int (length rates_list) \<le> N then rates_list
                           else drop (length rates_list - nat N) rates_list)))"
  using assms by (simp add: get_latest_rates_def dict_get_def slice_from_neg)

theorem get_latest_rates_last_N_witness:
  "latest_token_data (projr (example_feed_after 3)) ''aave_dai'' =
     Some [(''aave_dai'', 0, Some 200), (''aave_dai'', 1, Some 201), (''aave_dai'', 2, Some 202)]
   \<and> (1::int) \<le> 2
   \<and> get_latest_rates (projr (example_feed_after 3)) ''aave_dai'' 2 =
       ([], Inr (Some [(''aave_dai'', 1, Some 201), (''aave_dai'', 2, Some 202)]))"
proof -
  have h: "latest_token_data (projr (example_feed_after 3)) ''aave_dai'' =
     Some [(''aave_dai'', 0, Some 200), (''aave_dai'', 1, Some 201), (''aave_dai'', 2, Some 202)]"
    by code_simp
  show ?thesis
    using h get_latest_rates_last_N [OF h, of 2] by simp
qed

text \<open>
  Claim C10. For a registered token, \<^verbatim>\<open>get_latest_rates(token, 0)\<close> returns the whole
  revealed history, not an empty list: the slice \<^verbatim>\<open>rates_list[-0:]\<close> starts at 0.
\<close>

theorem get_latest_rates_zero_whole_history:
  assumes "latest_token_data self token = Some rates_list"
  shows "get_latest_rates self token 0 = ([], Inr (Some rates_list))"
  using assms by (simp add: get_latest_rates_def dict_get_def slice_from_def)

theorem get_latest_rates_zero_whole_history_witness:
  "latest_token_data (projr (example_feed_after 2)) ''aave_usdc'' =
     Some [(''aave_usdc'', 0, Some 100), (''aave_usdc'', 1, Some 101)]
   \<and> get_latest_rates (projr (example_feed_after 2)) ''aave_usdc'' 0 =
       ([], Inr (Some [(''aave_usdc'', 0, Some 100), (''aave_usdc'', 1, Some 101)]))"
proof -
  have h: "latest_token_data (projr (example_feed_after 2)) ''aave_usdc'' =
     Some [(''aave_usdc'', 0, Some 100), (''aave_usdc'', 1, Some 101)]"
    by code_simp
  show ?thesis
    using h get_latest_rates_zero_whole_history [OF h] by simp
qed

section \<open>One call of \<^verbatim>\<open>update_rates\<close>\<close>

lemma in_step_iff:
  "in_step idx s t \<longleftrightarrow>
     (\<exists>h rows. latest_token_data s t = Some h \<and> token_data s t = Some (RowIter rows)
        \<and> map rate_timestamp h @ index_of rows = idx)"
  by (auto simp: in_step_def split: option.splits token_series.splits)

text \<open>
  What the loop of \<^verbatim>\<open>update_rates\<close> leaves alone in any state it returns from: the
  queue, the token list, and a cleared \<^verbatim>\<open>continue_backtest\<close>.
\<close>

lemma update_rates_loop_frame:
  "update_rates_loop ts s = Inr s' \<Longrightarrow>
     events s' = events s \<and> token_list s' = token_list s
     \<and> (\<not> continue_backtest s \<longrightarrow> \<not> continue_backtest s')"
proof (induction ts arbitrary: s)
  case Nil
  then show ?case by simp
next
  case (Cons t ts)
  show ?case
  proof (cases "next_get_new_rate s t")
    case (Inl e)
    with Cons.prems have e: "e = StopIteration"
      by (cases e) simp_all
    with Inl Cons.prems have "update_rates_loop ts (s\<lparr>continue_backtest := False\<rparr>) = Inr s'"
      by simp
    from Cons.IH [OF this] show ?thesis by simp
  next
    case (Inr p)
    then obtain r s1 where p: "p = (Some r, s1)"
      and s1: "s1 = s\<lparr>token_data := (token_data s)(t \<mapsto> RowIter (tl (case the (token_data s t) of RowIter rows \<Rightarrow> rows | DataFrame df \<Rightarrow> [])))\<rparr>"
      by (auto simp: next_get_new_rate_def split: option.splits token_series.splits list.splits)
    from Cons.prems Inr p obtain h where
      run: "update_rates_loop ts (s1\<lparr>latest_token_data := (latest_token_data s1)(t \<mapsto> h @ [r])\<rparr>) = Inr s'"
      by (auto split: option.splits)
    from Cons.IH [OF run] s1 show ?thesis by simp
  qed
qed

text \<open>
  When every token of the loop has an iterator and a history that are in step with
  \<open>idx\<close>, the loop returns, keeps the keys of the histories and keeps every token in
  step: a revealed row moves its timestamp from the rows to come to the history.
\<close>

lemma update_rates_loop_in_step:
  "\<forall>t\<in>set ts. in_step idx s t \<Longrightarrow>
     \<exists>s'. update_rates_loop ts s = Inr s'
        \<and> dom (latest_token_data s') = dom (latest_token_data s)
        \<and> (\<forall>t. in_step idx s t \<longrightarrow> in_step idx s' t)"
proof (induction ts arbitrary: s)
  case Nil
  then show ?case by simp
next
  case (Cons t ts)
  from Cons.prems obtain h rows where
    h: "latest_token_data s t = Some h" and rows: "token_data s t = Some (RowIter rows)"
    and idx: "map rate_timestamp h @ index_of rows = idx"
    by (auto simp: in_step_iff)
  show ?case
  proof (cases rows)
    case Nil
    let ?s1 = "s\<lparr>continue_backtest := False\<rparr>"
    have step: "update_rates_loop (t # ts) s = update_rates_loop ts ?s1"
      using rows Nil by (simp add: next_get_new_rate_def)
    have same: "\<And>u. in_step idx ?s1 u = in_step idx s u"
      by (simp add: in_step_def)
    from Cons.prems same have "\<forall>u\<in>set ts. in_step idx ?s1 u" by simp
    from Cons.IH [OF this] obtain s' where
      a: "update_rates_loop ts ?s1 = Inr s'"
      and b: "dom (latest_token_data s') = dom (latest_token_data ?s1)"
      and c: "\<forall>u. in_step idx ?s1 u \<longrightarrow> in_step idx s' u"
      by blast
    have "update_rates_loop (t # ts) s = Inr s'"
      using step a by (simp only:)
    moreover have "dom (latest_token_data s') = dom (latest_token_data s)"
      using b by simp
    moreover have "\<forall>u. in_step idx s u \<longrightarrow> in_step idx s' u"
      using c same by blast
    ultimately show ?thesis by blast
  next
    case (Cons b bs)
    let ?r = "(t, fst b, snd b)"
    let ?s1 = "s\<lparr>token_data := (token_data s)(t \<mapsto> RowIter bs),
                 latest_token_data := (latest_token_data s)(t \<mapsto> h @ [?r])\<rparr>"
    have step: "update_rates_loop (t # ts) s = update_rates_loop ts ?s1"
      using rows Cons h by (simp add: next_get_new_rate_def)
    have keep: "\<And>u. in_step idx s u \<Longrightarrow> in_step idx ?s1 u"
      using h rows Cons idx
      by (auto simp: in_step_iff rate_timestamp_def index_of_def)
    have dom: "dom (latest_token_data ?s1) = dom (latest_token_data s)"
      using h by auto
    from Cons.prems keep have "\<forall>u\<in>set ts. in_step idx ?s1 u" by simp
    from Cons.IH [OF this] obtain s' where
      a: "update_rates_loop ts ?s1 = Inr s'"
      and b: "dom (latest_token_data s') = dom (latest_token_data ?s1)"
      and c: "\<forall>u. in_step idx ?s1 u \<longrightarrow> in_step idx s' u"
      by blast
    have "update_rates_loop (t # ts) s = Inr s'"
      using step a by (simp only:)
    moreover have "dom (latest_token_data s') = dom (latest_token_data s)"
      using b dom by (simp only:)
    moreover have "\<forall>u. in_step idx s u \<longrightarrow> in_step idx s' u"
      using c keep by blast
    ultimately show ?thesis by blast
  qed
qed

lemma update_rates_in_step:
  assumes "\<forall>t\<in>set (token_list s). in_step idx s t"
  shows "\<exists>s'. update_rates s = Inr s' \<and> token_list s' = token_list s
           \<and> events s' = events s @ [MarketEvent]
           \<and> dom (latest_token_data s') = dom (latest_token_data s)
           \<and> (\<forall>t. in_step idx s t \<longrightarrow> in_step idx s' t)"
proof -
  from update_rates_loop_in_step [OF assms] obtain s1 where
    a: "update_rates_loop (token_list s) s = Inr s1"
    and b: "dom (latest_token_data s1) = dom (latest_token_data s)"
    and c: "\<forall>t. in_step idx s t \<longrightarrow> in_step idx s1 t"
    by blast
  let ?s' = "s1\<lparr>events := events s1 @ [MarketEvent]\<rparr>"
  have "update_rates s = Inr ?s'"
    using a by (simp add: update_rates_def)
  moreover have "\<And>t. in_step idx ?s' t = in_step idx s1 t"
    by (simp add: in_step_def)
  ultimately show ?thesis
    using update_rates_loop_frame [OF a] b c by auto
qed

lemma update_rates_n_in_step:
  "\<forall>t\<in>set (token_list s). in_step idx s t \<Longrightarrow>
     \<exists>s'. update_rates_n n s = Inr s' \<and> token_list s' = token_list s
        \<and> events s' = events s @ replicate n MarketEvent
        \<and> dom (latest_token_data s') = dom (latest_token_data s)
        \<and> (\<forall>t. in_step idx s t \<longrightarrow> in_step idx s' t)"
proof (induction n arbitrary: s)
  case 0
  then show ?case by simp
next
  case (Suc n)
  from update_rates_in_step [OF Suc.prems] obtain s1 where
    a: "update_rates s = Inr s1" and tl: "token_list s1 = token_list s"
    and ev: "events s1 = events s @ [MarketEvent]"
    and dm: "dom (latest_token_data s1) = dom (latest_token_data s)"
    and st: "\<forall>t. in_step idx s t \<longrightarrow> in_step idx s1 t"
    by blast
  from Suc.prems tl st have "\<forall>t\<in>set (token_list s1). in_step idx s1 t" by simp
  from Suc.IH [OF this] obtain s' where
    a': "update_rates_n n s1 = Inr s'" and tl': "token_list s' = token_list s1"
    and ev': "events s' = events s1 @ replicate n MarketEvent"
    and dm': "dom (latest_token_data s') = dom (latest_token_data s1)"
    and st': "\<forall>t. in_step idx s1 t \<longrightarrow> in_step idx s' t"
    by blast
  have "update_rates_n (Suc n) s = Inr s'"
    using a a' by simp
  moreover have "events s' = events s @ replicate (Suc n) MarketEvent"
    using ev ev' by (simp add: replicate_append_same)
  ultimately show ?case
    using tl tl' dm dm' st st' by auto
qed

lemma update_rates_sticky:
  assumes "update_rates s = Inr s'" and "\<not> continue_backtest s"
  shows "\<not> continue_backtest s'"
proof -
  from assms(1) obtain s1 where
    a: "update_rates_loop (token_list s) s = Inr s1"
    and b: "s' = s1\<lparr>events := events s1 @ [MarketEvent]\<rparr>"
    by (cases "update_rates_loop (token_list s) s") (simp_all add: update_rates_def)
  from update_rates_loop_frame [OF a] assms(2) have "\<not> continue_backtest s1"
    by blast
  with b show ?thesis by simp
qed

section \<open>What construction establishes\<close>

lemma sorted_bin_labels: "0 < k \<Longrightarrow> sorted_wrt (<) (bin_labels k df)"
proof -
  assume k: "0 < k"
  have "sorted_wrt (\<lambda>i j. a + k * int i < a + k * int j) [0 ..< n]" for a n
    by (rule sorted_wrt_mono_rel [OF _ sorted_wrt_upt]) (use k in simp)
  then have "sorted_wrt (<) (map (\<lambda>i. a + k * int i) [0 ..< n])" for a n
    by (simp only: sorted_wrt_map)
  then show ?thesis
    by (simp add: bin_labels_def Let_def del: upt_Suc)
qed

lemma index_of_reindex_pad: "index_of (reindex_pad idx df) = idx"
  by (simp add: index_of_def reindex_pad_def comp_def)

lemma sorted_index_filter:
  "sorted_wrt (<) (index_of df) \<Longrightarrow> sorted_wrt (<) (index_of (filter P df))"
  by (simp add: index_of_def sorted_wrt_map sorted_wrt_filter)

lemma adjust_sorted:
  "adjust_liquidity_index_frequency s df = Inr df' \<Longrightarrow> sorted_wrt (<) (index_of df')"
  by (auto simp: adjust_liquidity_index_frequency_def resample_ffill_def dropna_def
                 index_of_reindex_pad sorted_bin_labels
           split: if_splits intro!: sorted_index_filter)

lemma start_end_filter_sorted:
  "sorted_wrt (<) (index_of df) \<Longrightarrow> sorted_wrt (<) (index_of (start_end_filter s df))"
  by (auto simp: start_end_filter_def between_def split: option.splits
           intro: sorted_index_filter)

lemma open_convert_token_Inr:
  assumes "open_convert_token csv t (s, comb) = Inr (s', comb')"
  shows "\<exists>df. sorted_wrt (<) (index_of df)
           \<and> s' = s\<lparr>token_data := (token_data s)(t \<mapsto> DataFrame df),
                     latest_token_data := (latest_token_data s)(t \<mapsto> [])\<rparr>
           \<and> comb' = (case comb of None \<Rightarrow> Some (index_of df) | Some c \<Rightarrow> Some c)"
proof -
  from assms obtain df0 df1 where
    "adjust_liquidity_index_frequency s df0 = Inr df1"
    and s': "s' = s\<lparr>token_data := (token_data s)(t \<mapsto> DataFrame (start_end_filter s df1)),
                     latest_token_data := (latest_token_data s)(t \<mapsto> [])\<rparr>"
    and c': "comb' = (case comb of None \<Rightarrow> Some (index_of (start_end_filter s df1))
                      | Some c \<Rightarrow> Some c)"
    by (auto simp: open_convert_token_def Let_def split: sum.splits option.splits)
  then have "sorted_wrt (<) (index_of (start_end_filter s df1))"
    by (intro start_end_filter_sorted adjust_sorted)
  with s' c' show ?thesis by blast
qed

lemma open_convert_loop_Inr:
  assumes "open_convert_loop csv ts (s, comb) = Inr (s', comb')"
    and "case comb of None \<Rightarrow> True | Some c \<Rightarrow> sorted_wrt (<) c"
  shows "events s' = events s \<and> token_list s' = token_list s
     \<and> continue_backtest s' = continue_backtest s
     \<and> dom (latest_token_data s') = dom (latest_token_data s) \<union> set ts
     \<and> (\<forall>t. latest_token_data s t = Some [] \<or> t \<in> set ts \<longrightarrow> latest_token_data s' t = Some [])
     \<and> (\<forall>t. (\<exists>df. token_data s t = Some (DataFrame df)) \<or> t \<in> set ts
            \<longrightarrow> (\<exists>df. token_data s' t = Some (DataFrame df)))
     \<and> (case comb' of None \<Rightarrow> ts = [] | Some c \<Rightarrow> sorted_wrt (<) c)"
  using assms
proof (induction ts arbitrary: s comb)
  case Nil
  then show ?case by (auto split: option.splits)
next
  case (Cons t ts)
  from Cons.prems(1) obtain s1 comb1 where
    tok: "open_convert_token csv t (s, comb) = Inr (s1, comb1)"
    and rest: "open_convert_loop csv ts (s1, comb1) = Inr (s', comb')"
    by (auto split: sum.splits)
  from open_convert_token_Inr [OF tok] obtain df where
    srt: "sorted_wrt (<) (index_of df)"
    and s1: "s1 = s\<lparr>token_data := (token_data s)(t \<mapsto> DataFrame df),
                     latest_token_data := (latest_token_data s)(t \<mapsto> [])\<rparr>"
    and c1: "comb1 = (case comb of None \<Rightarrow> Some (index_of df) | Some c \<Rightarrow> Some c)"
    by blast
  from c1 srt Cons.prems(2) obtain c where c: "comb1 = Some c" "sorted_wrt (<) c"
    by (cases comb) auto
  then have ok1: "case comb1 of None \<Rightarrow> True | Some c \<Rightarrow> sorted_wrt (<) c"
    by simp
  note IH = Cons.IH [OF rest ok1]
  have "comb' \<noteq> None"
  proof (cases ts)
    case Nil
    with rest c show ?thesis by auto
  next
    case (Cons u us)
    with IH show ?thesis by (auto split: option.splits)
  qed
  with IH have cb: "case comb' of None \<Rightarrow> t # ts = [] | Some c \<Rightarrow> sorted_wrt (<) c"
    by (auto split: option.splits)
  have f1: "events s' = events s \<and> token_list s' = token_list s
      \<and> continue_backtest s' = continue_backtest s"
    using IH s1 by simp
  have f2: "dom (latest_token_data s') = dom (latest_token_data s) \<union> set (t # ts)"
    using IH s1 by auto
  have f3: "\<forall>u. latest_token_data s u = Some [] \<or> u \<in> set (t # ts)
      \<longrightarrow> latest_token_data s' u = Some []"
  proof (intro allI impI)
    fix u assume "latest_token_data s u = Some [] \<or> u \<in> set (t # ts)"
    then have "latest_token_data s1 u = Some [] \<or> u \<in> set ts"
      using s1 by auto
    with IH show "latest_token_data s' u = Some []" by blast
  qed
  have f4: "\<forall>u. (\<exists>df. token_data s u = Some (DataFrame df)) \<or> u \<in> set (t # ts)
      \<longrightarrow> (\<exists>df. token_data s' u = Some (DataFrame df))"
  proof (intro allI impI)
    fix u assume "(\<exists>df. token_data s u = Some (DataFrame df)) \<or> u \<in> set (t # ts)"
    then have "(\<exists>df. token_data s1 u = Some (DataFrame df)) \<or> u \<in> set ts"
      using s1 by auto
    with IH show "\<exists>df. token_data s' u = Some (DataFrame df)" by blast
  qed
  from f1 f2 f3 f4 cb show ?case by blast
qed

lemma reindex_loop_Inr:
  assumes "reindex_loop comb ss s = Inr s'"
  shows "events s' = events s \<and> token_list s' = token_list s
     \<and> continue_backtest s' = continue_backtest s
     \<and> latest_token_data s' = latest_token_data s
     \<and> (\<forall>t. t \<in> set ss \<or> (\<exists>df. token_data s t = Some (RowIter (reindex df comb)))
            \<longrightarrow> (\<exists>df. token_data s' t = Some (RowIter (reindex df comb))))"
  using assms
proof (induction ss arbitrary: s)
  case Nil
  then show ?case by simp
next
  case (Cons t ss)
  from Cons.prems obtain df where
    df: "token_data s t = Some (DataFrame df)"
    and rest: "reindex_loop comb ss
                 (s\<lparr>token_data := (token_data s)(t \<mapsto> RowIter (reindex df comb))\<rparr>) = Inr s'"
    by (auto split: option.splits token_series.splits)
  let ?s1 = "s\<lparr>token_data := (token_data s)(t \<mapsto> RowIter (reindex df comb))\<rparr>"
  note IH = Cons.IH [OF rest]
  have "\<forall>u. u \<in> set (t # ss) \<or> (\<exists>df. token_data s u = Some (RowIter (reindex df comb)))
      \<longrightarrow> (\<exists>df. token_data s' u = Some (RowIter (reindex df comb)))"
  proof (intro allI impI)
    fix u assume "u \<in> set (t # ss) \<or> (\<exists>df. token_data s u = Some (RowIter (reindex df comb)))"
    then have "u \<in> set ss \<or> (\<exists>df. token_data ?s1 u = Some (RowIter (reindex df comb)))"
      by auto
    with IH show "\<exists>df. token_data s' u = Some (RowIter (reindex df comb))" by blast
  qed
  with IH show ?case by simp
qed

text \<open>
  A feed that construction returns has every token of its list in step with one
  strictly increasing index, an empty history for each of them and for no other key,
  the queue it was given, and \<^verbatim>\<open>continue_backtest\<close> set.
\<close>

lemma HistoricCSVDataHandler_Inr:
  assumes "HistoricCSVDataHandler csv evs toks a b k = Inr s0"
  shows "\<exists>idx. sorted_wrt (<) idx \<and> (\<forall>t\<in>set toks. in_step idx s0 t)
     \<and> (\<forall>t\<in>set toks. latest_token_data s0 t = Some [])
     \<and> token_list s0 = toks \<and> events s0 = evs \<and> continue_backtest s0
     \<and> dom (latest_token_data s0) = set toks"
proof -
  let ?init = "\<lparr>events = evs, token_list = toks, token_data = Map.empty,
        latest_token_data = Map.empty, continue_backtest = True,
        start_date_time = a, end_date_time = b, backtest_frequency = k\<rparr>"
  from assms obtain s1 comb where
    l1: "open_convert_loop csv toks (?init, None) = Inr (s1, comb)"
    and l2: "reindex_loop comb (token_list s1) s1 = Inr s0"
    by (auto simp: HistoricCSVDataHandler_def open_convert_csv_files_def split: sum.splits)
  have A: "events s1 = evs \<and> token_list s1 = toks \<and> continue_backtest s1
     \<and> dom (latest_token_data s1) = set toks
     \<and> (\<forall>t\<in>set toks. latest_token_data s1 t = Some [])
     \<and> (case comb of None \<Rightarrow> toks = [] | Some c \<Rightarrow> sorted_wrt (<) c)"
    using open_convert_loop_Inr [OF l1] by simp
  then have l2': "reindex_loop comb toks s1 = Inr s0"
    using l2 by simp
  note B = reindex_loop_Inr [OF l2']
  have frame: "token_list s0 = toks \<and> events s0 = evs \<and> continue_backtest s0
     \<and> dom (latest_token_data s0) = set toks
     \<and> (\<forall>t\<in>set toks. latest_token_data s0 t = Some [])"
    using A B by simp
  show ?thesis
  proof (cases comb)
    case None
    with A have "toks = []" by simp
    with frame show ?thesis by (intro exI [of _ "[]"]) simp
  next
    case (Some c)
    with A have srt: "sorted_wrt (<) c" by simp
    have "\<forall>t\<in>set toks. in_step c s0 t"
    proof
      fix t assume t: "t \<in> set toks"
      with B Some obtain df where "token_data s0 t = Some (RowIter (reindex_pad c df))"
        by (auto simp: reindex_def)
      moreover from frame t have "latest_token_data s0 t = Some []" by simp
      ultimately show "in_step c s0 t"
        by (simp add: in_step_def index_of_reindex_pad)
    qed
    with srt frame show ?thesis by blast
  qed
qed

section \<open>The example feed\<close>

lemma example_feed_collapse: "example_feed = Inr (projr example_feed)"
proof -
  have "\<not> isl example_feed" by code_simp
  then show ?thesis by (rule sum.collapse(2) [symmetric])
qed

lemma example_feed_Inr:
  "HistoricCSVDataHandler example_csv [] example_tokens None None 1 = Inr (projr example_feed)"
  using example_feed_collapse unfolding example_feed_def .

lemma example_feed_after_eq:
  "example_feed_after n = update_rates_n n (projr example_feed)"
proof -
  have "\<not> isl example_feed" by code_simp
  then show ?thesis
    by (simp add: example_feed_after_def sum.case_eq_if)
qed

lemma example_feed_after_Inr:
  assumes "update_rates_n n (projr example_feed) = Inr s"
  shows "projr (example_feed_after n) = s"
  using assms by (simp add: example_feed_after_eq)

lemma example_feed_after_5:
  "update_rates_n 5 (projr example_feed) = Inr (projr (example_feed_after 5))"
proof -
  have "\<not> isl (example_feed_after 5)" by code_simp
  then have "example_feed_after 5 = Inr (projr (example_feed_after 5))"
    by (rule sum.collapse(2) [symmetric])
  with example_feed_after_eq [of 5] show ?thesis
    by (rule trans [OF sym])
qed

section \<open>Properties of the rate feed\<close>

text \<open>
  Claim C2, as amended. On a feed that construction returned, after any number \<open>n\<close>
  of earlier calls, a call of \<^verbatim>\<open>update_rates()\<close> returns and puts exactly one
  \<^verbatim>\<open>MarketEvent\<close> at the end of the queue, whatever the number of tokens that
  advanced and whether or not the series were exhausted before: there is no call
  without an event.
\<close>

theorem update_rates_enqueues_one_event:
  assumes "HistoricCSVDataHandler csv evs toks a b k = Inr s0"
  shows "\<exists>s. update_rates_n n s0 = Inr s
           \<and> (\<exists>s'. update_rates s = Inr s' \<and> events s' = events s @ [MarketEvent])"
proof -
  from HistoricCSVDataHandler_Inr [OF assms] obtain idx where
    st: "\<forall>t\<in>set (token_list s0). in_step idx s0 t"
    by auto
  from update_rates_n_in_step [OF st, of n] obtain s where
    s: "update_rates_n n s0 = Inr s" and tl: "token_list s = token_list s0"
    and keep: "\<forall>t. in_step idx s0 t \<longrightarrow> in_step idx s t"
    by blast
  from st tl keep have "\<forall>t\<in>set (token_list s). in_step idx s t"
    by simp
  from update_rates_in_step [OF this] s show ?thesis by blast
qed

theorem update_rates_enqueues_one_event_witness:
  "HistoricCSVDataHandler example_csv [] example_tokens None None 1 = Inr (projr example_feed)
   \<and> (\<exists>s. update_rates_n 5 (projr example_feed) = Inr s
         \<and> (\<exists>s'. update_rates s = Inr s' \<and> events s' = events s @ [MarketEvent]))"
  using example_feed_Inr update_rates_enqueues_one_event [OF example_feed_Inr, of 5]
  by (rule conjI)

text \<open>
  Claim C2 as stated fails. In the example feed \<^verbatim>\<open>continue_backtest\<close> is cleared
  by the fourth call. The sixth call comes after that, reveals nothing for either
  token, and still puts its event on the queue: six calls, six events.
\<close>

theorem update_rates_event_after_exhaustion:
  "\<not> continue_backtest (projr (example_feed_after 5))
   \<and> \<not> isl (update_rates (projr (example_feed_after 5)))
   \<and> latest_token_data (projr (update_rates (projr (example_feed_after 5)))) ''aave_usdc''
       = latest_token_data (projr (example_feed_after 5)) ''aave_usdc''
   \<and> latest_token_data (projr (update_rates (projr (example_feed_after 5)))) ''aave_dai''
       = latest_token_data (projr (example_feed_after 5)) ''aave_dai''
   \<and> events (projr (example_feed_after 5)) = replicate 5 MarketEvent
   \<and> events (projr (update_rates (projr (example_feed_after 5)))) = replicate 6 MarketEvent"
  by code_simp

text \<open>
  Claim C3, as amended. On a feed that construction returned, after any number of
  calls of \<^verbatim>\<open>update_rates()\<close>: for a token that was not registered,
  \<^verbatim>\<open>get_latest_rates\<close> raises nothing; it prints one line and returns None. For a
  registered token it prints nothing and returns a list, also when the series is
  exhausted. So the caller can tell the two cases apart, by None against a list.
\<close>

theorem get_latest_rates_unknown_token:
  assumes "HistoricCSVDataHandler csv evs toks a b k = Inr s0"
    and "update_rates_n n s0 = Inr s"
  shows "(token \<notin> set toks \<longrightarrow>
            get_latest_rates s token N = ([unavailable_message], Inr None))
       \<and> (token \<in> set toks \<longrightarrow>
            (\<exists>xs. get_latest_rates s token N = ([], Inr (Some xs))))"
proof -
  from HistoricCSVDataHandler_Inr [OF assms(1)] obtain idx where
    st: "\<forall>t\<in>set (token_list s0). in_step idx s0 t"
    and dm: "dom (latest_token_data s0) = set toks"
    by auto
  from update_rates_n_in_step [OF st, of n] assms(2)
  have "dom (latest_token_data s) = set toks"
    using dm by auto
  then have "latest_token_data s token = None \<longleftrightarrow> token \<notin> set toks"
    by (metis domIff)
  then show ?thesis
    by (cases "latest_token_data s token")
       (simp_all add: get_latest_rates_def dict_get_def)
qed

theorem get_latest_rates_unknown_token_witness:
  "HistoricCSVDataHandler example_csv [] example_tokens None None 1 = Inr (projr example_feed)
   \<and> update_rates_n 5 (projr example_feed) = Inr (projr (example_feed_after 5))
   \<and> ''aave_weth'' \<notin> set example_tokens
   \<and> get_latest_rates (projr (example_feed_after 5)) ''aave_weth'' 1
       = ([unavailable_message], Inr None)
   \<and> ''aave_usdc'' \<in> set example_tokens
   \<and> (\<exists>xs. get_latest_rates (projr (example_feed_after 5)) ''aave_usdc'' 1
             = ([], Inr (Some xs)))"
proof -
  have out: "''aave_weth'' \<notin> set example_tokens"
    and inside: "''aave_usdc'' \<in> set example_tokens"
    by (simp_all add: example_tokens_def)
  from get_latest_rates_unknown_token
         [OF example_feed_Inr example_feed_after_5, of "''aave_weth''" 1] out
  have a: "get_latest_rates (projr (example_feed_after 5)) ''aave_weth'' 1
       = ([unavailable_message], Inr None)"
    by blast
  from get_latest_rates_unknown_token
         [OF example_feed_Inr example_feed_after_5, of "''aave_usdc''" 1] inside
  have b: "\<exists>xs. get_latest_rates (projr (example_feed_after 5)) ''aave_usdc'' 1
             = ([], Inr (Some xs))"
    by blast
  from example_feed_Inr example_feed_after_5 out a inside b show ?thesis
    by (intro conjI)
qed

text \<open>
  Claim C3 as stated fails. Asked for a token that is not registered, the example
  feed returns None after printing its message; the outcome is not an exception, so
  no UnknownTokenError (the code defines none) reaches the caller.
\<close>

theorem get_latest_rates_unknown_token_is_not_an_error:
  "get_latest_rates (projr (example_feed_after 5)) ''aave_weth'' 1
     = ([unavailable_message], Inr None)
   \<and> \<not> isl (snd (get_latest_rates (projr (example_feed_after 5)) ''aave_weth'' 1))"
  by code_simp

text \<open>
  Claim C4. Once \<^verbatim>\<open>continue_backtest\<close> is false, it is false after any number of
  further calls of \<^verbatim>\<open>update_rates()\<close>: the only assignment in the method sets it
  to False.
\<close>

theorem exhaustion_sticky:
  assumes "\<not> continue_backtest s" and "update_rates_n n s = Inr s'"
  shows "\<not> continue_backtest s'"
  using assms
proof (induction n arbitrary: s)
  case 0
  then show ?case by simp
next
  case (Suc n)
  from Suc.prems(2) obtain s1 where
    a: "update_rates s = Inr s1" and b: "update_rates_n n s1 = Inr s'"
    by (cases "update_rates s") simp_all
  from update_rates_sticky [OF a Suc.prems(1)] b show ?case
    by (rule Suc.IH)
qed

theorem exhaustion_sticky_witness:
  "continue_backtest (projr (example_feed_after 3))
   \<and> \<not> continue_backtest (projr (example_feed_after 4))
   \<and> update_rates_n 3 (projr (example_feed_after 4))
       = Inr (projr (update_rates_n 3 (projr (example_feed_after 4))))
   \<and> \<not> continue_backtest (projr (update_rates_n 3 (projr (example_feed_after 4))))"
proof -
  have a: "continue_backtest (projr (example_feed_after 3))" by code_simp
  have b: "\<not> continue_backtest (projr (example_feed_after 4))" by code_simp
  have "\<not> isl (update_rates_n 3 (projr (example_feed_after 4)))" by code_simp
  then have c: "update_rates_n 3 (projr (example_feed_after 4))
       = Inr (projr (update_rates_n 3 (projr (example_feed_after 4))))"
    by simp
  from a b c exhaustion_sticky [OF b c] show ?thesis by (intro conjI)
qed

text \<open>
  Claim C9. On a feed that construction returned, any number of calls of
  \<^verbatim>\<open>update_rates()\<close> returns, and afterwards every registered token has a revealed
  history whose timestamps are strictly increasing.
\<close>

theorem revealed_timestamps_strictly_increasing:
  assumes "HistoricCSVDataHandler csv evs toks a b k = Inr s0"
  shows "\<exists>s. update_rates_n n s0 = Inr s
           \<and> (\<forall>t\<in>set toks. \<exists>h. latest_token_data s t = Some h
                  \<and> sorted_wrt (<) (map rate_timestamp h))"
proof -
  from HistoricCSVDataHandler_Inr [OF assms] obtain idx where
    srt: "sorted_wrt (<) idx" and tl: "token_list s0 = toks"
    and st: "\<forall>t\<in>set (token_list s0). in_step idx s0 t"
    by auto
  from update_rates_n_in_step [OF st, of n] obtain s where
    s: "update_rates_n n s0 = Inr s"
    and keep: "\<forall>t. in_step idx s0 t \<longrightarrow> in_step idx s t"
    by blast
  from st tl keep have st': "\<forall>t\<in>set toks. in_step idx s t"
    by simp
  have "\<exists>h. latest_token_data s t = Some h \<and> sorted_wrt (<) (map rate_timestamp h)"
    if "t \<in> set toks" for t
  proof -
    from st' that obtain h rows where
      h: "latest_token_data s t = Some h" "map rate_timestamp h @ index_of rows = idx"
      by (auto simp: in_step_iff)
    from srt h(2) have "sorted_wrt (<) (map rate_timestamp h)"
      by (auto simp: sorted_wrt_append)
    with h(1) show ?thesis by blast
  qed
  with s show ?thesis by blast
qed

theorem revealed_timestamps_strictly_increasing_witness:
  "HistoricCSVDataHandler example_csv [] example_tokens None None 1 = Inr (projr example_feed)
   \<and> latest_token_data (projr (example_feed_after 2)) ''aave_dai''
       = Some [(''aave_dai'', 0, Some 200), (''aave_dai'', 1, Some 201)]
   \<and> sorted_wrt (<) (map rate_timestamp [(''aave_dai'', 0, Some 200), (''aave_dai'', 1, Some 201)])"
proof -
  have h: "latest_token_data (projr (example_feed_after 2)) ''aave_dai''
       = Some [(''aave_dai'', 0, Some 200), (''aave_dai'', 1, Some 201)]"
    by code_simp
  from revealed_timestamps_strictly_increasing [OF example_feed_Inr, of 2] obtain s where
    s: "update_rates_n 2 (projr example_feed) = Inr s"
    and all: "\<forall>t\<in>set example_tokens. \<exists>h. latest_token_data s t = Some h
                  \<and> sorted_wrt (<) (map rate_timestamp h)"
    by blast
  have "''aave_dai'' \<in> set example_tokens"
    by (simp add: example_tokens_def)
  with all obtain h' where
    "latest_token_data s ''aave_dai'' = Some h'" "sorted_wrt (<) (map rate_timestamp h')"
    by blast
  moreover from h have "latest_token_data s ''aave_dai''
       = Some [(''aave_dai'', 0, Some 200), (''aave_dai'', 1, Some 201)]"
    by (simp only: example_feed_after_Inr [OF s])
  ultimately have "sorted_wrt (<)
      (map rate_timestamp [(''aave_dai'', 0, Some 200), (''aave_dai'', 1, Some 201)])"
    by simp
  with h example_feed_Inr show ?thesis by (intro conjI)
qed

text \<open>
  Claim C6, at an input where the code departs from it. The cleaned series of
  \<^verbatim>\<open>aave_usdc\<close> has the index 0, 1, 2 and that of \<^verbatim>\<open>aave_dai\<close> the index
  0, 1, 2, 3, so the union of the indices is 0, 1, 2, 3. Construction reindexes both
  series on the index of the first token: the row of \<^verbatim>\<open>aave_dai\<close> at timestamp 3
  is in neither iterator, and five calls of \<^verbatim>\<open>update_rates()\<close> reveal three
  observations of \<^verbatim>\<open>aave_dai\<close>.
\<close>

theorem reindex_on_first_token_index_only:
  "adjust_liquidity_index_frequency (projr example_feed)
       [(0, Some 200), (1, Some 201), (2, Some 202), (3, Some 204)]
     = Inr [(0, Some 200), (1, Some 201), (2, Some 202), (3, Some 204)]
   \<and> index_union [0, 1, 2] [0, 1, 2, 3] = [0, 1, 2, 3]
   \<and> token_data (projr example_feed) ''aave_usdc''
     = Some (RowIter [(0, Some 100), (1, Some 101), (2, Some 103)])
   \<and> token_data (projr example_feed) ''aave_dai''
     = Some (RowIter [(0, Some 200), (1, Some 201), (2, Some 202)])
   \<and> latest_token_data (projr (example_feed_after 5)) ''aave_dai''
     = Some [(''aave_dai'', 0, Some 200), (''aave_dai'', 1, Some 201), (''aave_dai'', 2, Some 202)]"
  by code_simp

end
